theory Spec2Isabelle
  imports Complex_Main
begin

section \<open>A model of \<open>ordenar_1.3.py\<close>\<close>

text \<open>
  The script scans folders of CSV files, keeps the last value of the second column of
  every file, converts units, joins the per-folder tables on the converted speed, writes
  a spreadsheet and draws an interpolated plot.

  Conventions of the model.
  \<^item> Python floats are idealised as \<^typ>\<open>real\<close>: rounding, \<open>inf\<close> and \<open>nan\<close> are left out.
  \<^item> A Python \<open>dict\<close> is an association list in insertion order; assigning to a key that
    is present keeps its position (\<open>dict_set\<close>).
  \<^item> An uncaught exception is the \<open>Inl\<close> branch of a sum; what was printed or written
    before it is kept in the trace of events.
  \<^item> The file system is a function from a folder path to its listing; every entry carries
    what \<open>pd.read_csv\<close> would give for it.
\<close>

subsection \<open>Strings and paths\<close>

text \<open>\<open>s.split(c)\<close> for a one-character separator: never empty, one more segment than
  there are separators.\<close>

fun split_on :: "char \<Rightarrow> string \<Rightarrow> string list" where
  "split_on c [] = [[]]"
| "split_on c (x # xs) =
     (if x = c then [] # split_on c xs
      else (case split_on c xs of
              [] \<Rightarrow> [[x]]
            | seg # segs \<Rightarrow> (x # seg) # segs))"

text \<open>\<open>s.endswith(suf)\<close>.\<close>

definition endswith :: "string \<Rightarrow> string \<Rightarrow> bool" where
  "endswith s suf = (take (length suf) (rev s) = rev suf)"

text \<open>
  \<open>os.path.splitext(p)[0]\<close> for a name without directory separators (an entry of
  \<open>os.listdir\<close>): the name is cut at its last dot, unless nothing but dots comes before
  that dot, in which case the whole name is the root.
\<close>

definition splitext_root :: "string \<Rightarrow> string" where
  "splitext_root p =
     (let dots = dropWhile (\<lambda>c. c \<noteq> CHR ''.'') (rev p) in
      case dots of
        [] \<Rightarrow> p
      | _ # front \<Rightarrow> if list_ex (\<lambda>c. c \<noteq> CHR ''.'') front then rev front else p)"

text \<open>\<open>os.path.basename(p)\<close> on a POSIX path: what follows the last slash.\<close>

definition basename :: "string \<Rightarrow> string" where
  "basename p = rev (takeWhile (\<lambda>c. c \<noteq> CHR ''/'') (rev p))"

subsection \<open>Uncaught exceptions\<close>

datatype error =
    OSError string          \<comment> \<open>\<open>os.listdir\<close> on a path that cannot be listed\<close>
  | ValueError string       \<comment> \<open>\<open>float\<close> on a string that is not a number\<close>
  | TypeError string        \<comment> \<open>a text cell multiplied by a float\<close>
  | InterpError string      \<comment> \<open>\<open>interp1d\<close> refusing the points of a folder\<close>

subsection \<open>\<open>float\<close> on a string\<close>

text \<open>
  The fragment of Python's \<open>float(s)\<close> that the model covers: an optional sign, ASCII
  decimal digits, and an optional exponent (\<open>e\<close> or \<open>E\<close>, optional sign, digits). A
  decimal point cannot occur, since the argument is always a segment between dots.
  Surrounding blanks, underscores between digits, \<open>inf\<close> and \<open>nan\<close>, which Python also
  accepts, are outside the idealisation to reals.
\<close>

definition is_digit :: "char \<Rightarrow> bool" where
  "is_digit c = (48 \<le> (of_char c :: nat) \<and> (of_char c :: nat) \<le> 57)"

definition digit_val :: "char \<Rightarrow> nat" where
  "digit_val c = of_char c - 48"

definition decimal :: "string \<Rightarrow> nat option" where
  "decimal ds =
     (if ds \<noteq> [] \<and> list_all is_digit ds
      then Some (foldl (\<lambda>a c. 10 * a + digit_val c) 0 ds)
      else None)"

definition strip_sign :: "string \<Rightarrow> bool \<times> string" where
  "strip_sign s =
     (case s of
        [] \<Rightarrow> (False, [])
      | c # r \<Rightarrow> if c = CHR ''-'' then (True, r)
                 else if c = CHR ''+'' then (False, r)
                 else (False, s))"

definition is_exp_mark :: "char \<Rightarrow> bool" where
  "is_exp_mark c = (c = CHR ''e'' \<or> c = CHR ''E'')"

definition py_float :: "string \<Rightarrow> error + real" where
  "py_float s =
     (let (neg, body) = strip_sign s;
          mant = takeWhile (\<lambda>c. \<not> is_exp_mark c) body;
          rest = dropWhile (\<lambda>c. \<not> is_exp_mark c) body;
          sg = (if neg then - 1 else 1 :: real)
      in case decimal mant of
           None \<Rightarrow> Inl (ValueError s)
         | Some m \<Rightarrow>
             (case rest of
                [] \<Rightarrow> Inr (sg * real m)
              | _ # ex \<Rightarrow>
                  (let (eneg, eds) = strip_sign ex
                   in case decimal eds of
                        None \<Rightarrow> Inl (ValueError s)
                      | Some k \<Rightarrow>
                          Inr (if eneg then sg * real m / 10 ^ k
                               else sg * real m * 10 ^ k))))"

subsection \<open>The filename parser\<close>

text \<open>\<open>float(filename.split('.')[-1])\<close>. The list of segments is never empty, so the
  index \<open>-1\<close> always exists.\<close>

definition extract_numeric_part :: "string \<Rightarrow> error + real" where
  "extract_numeric_part filename = py_float (last (split_on CHR ''.'' filename))"

subsection \<open>What the script reads\<close>

text \<open>
  A cell of a table is a number or something else (text). What \<open>pd.read_csv\<close> gives for
  a file is an exception, with its message, or a table, kept as the list of its columns.
  A folder path has a listing, or none when \<open>os.listdir\<close> raises.
\<close>

datatype cell = Num real | Text string

datatype read_csv = ReadError string | DataFrame "cell list list"

type_synonym dir_entry = "string \<times> read_csv"

type_synonym filesystem = "string \<Rightarrow> dir_entry list option"

subsection \<open>What the script builds and emits\<close>

text \<open>A row of a folder's table, with the column names of the source.\<close>

record row =
  FileName :: string
  LastValue :: cell
  NumericPart :: real
  Drag_N :: real
  Potencia_necesaria :: real

text \<open>
  A row of the merged table: the join key \<open>NumericPart\<close>, then, for every folder joined
  so far and in that order, its \<open>FileName\<close>, \<open>LastValue\<close>, \<open>Drag_N\<close> and
  \<open>Potencia_necesaria\<close>. The labels of the columns (the suffixes) are not modelled.
\<close>

type_synonym payload = "string \<times> cell \<times> real \<times> real"

type_synonym merged_row = "real \<times> payload list"

datatype event =
    Print string
  | PrintFrame "row list"
  | ToExcel string "merged_row list"
  | PlotCurve string "(real \<times> real) list"
  | Scatter string "(real \<times> real) list"
  | SaveFig string
  | Show

subsection \<open>Scanning one folder\<close>

text \<open>\<open>d[k] = v\<close> on a dict in insertion order.\<close>

fun dict_set :: "'k \<Rightarrow> 'v \<Rightarrow> ('k \<times> 'v) list \<Rightarrow> ('k \<times> 'v) list" where
  "dict_set k v [] = [(k, v)]"
| "dict_set k v ((k', v') # d) =
     (if k' = k then (k, v) # d else (k', v') # dict_set k v d)"

text \<open>\<open>df.iloc[-1, 1]\<close>, given the second column: an \<open>IndexError\<close> (here \<open>None\<close>) when the
  table has no row.\<close>

definition iloc_last :: "cell list \<Rightarrow> cell option" where
  "iloc_last col = (if col = [] then None else Some (last col))"

definition index_error_message :: string where
  "index_error_message = ''single positional indexer is out-of-bounds''"

text \<open>The body of the loop over \<open>os.listdir\<close>. Everything after the test of the
  extension is inside the \<open>try\<close>, whose handler prints and goes on.\<close>

definition scan_file ::
  "dir_entry \<Rightarrow> (string \<times> cell) list \<times> event list \<Rightarrow> (string \<times> cell) list \<times> event list"
where
  "scan_file entry st =
     (let filename = fst entry; data = fst st; out = snd st in
      if endswith filename ''.csv'' then
        (case snd entry of
           ReadError e \<Rightarrow>
             (data, out @ [Print (''Error reading '' @ filename @ '': '' @ e)])
         | DataFrame df \<Rightarrow>
             if length df > 1 then
               (case iloc_last (df ! 1) of
                  None \<Rightarrow>
                    (data, out @ [Print (''Error reading '' @ filename @ '': ''
                                         @ index_error_message)])
                | Some last_value \<Rightarrow>
                    (dict_set (splitext_root filename) last_value data, out))
             else
               (data, out @ [Print (''File '' @ filename
                                    @ '' does not have a second column.'')]))
      else (data, out))"

definition scan_folder :: "dir_entry list \<Rightarrow> (string \<times> cell) list \<times> event list" where
  "scan_folder entries = foldl (\<lambda>st entry. scan_file entry st) ([], []) entries"

subsection \<open>Converting one folder's table\<close>

text \<open>\<open>result_df['FileName'].apply(extract_numeric_part)\<close>: the first name that is not
  numeric raises, and nothing catches it.\<close>

fun apply_extract :: "string list \<Rightarrow> error + real list" where
  "apply_extract [] = Inr []"
| "apply_extract (n # ns) =
     (case extract_numeric_part n of
        Inl e \<Rightarrow> Inl e
      | Inr k \<Rightarrow> (case apply_extract ns of
                    Inl e \<Rightarrow> Inl e
                  | Inr ks \<Rightarrow> Inr (k # ks)))"

text \<open>A column times a float: a text cell raises \<open>TypeError\<close>.\<close>

fun times_float :: "cell list \<Rightarrow> real \<Rightarrow> error + real list" where
  "times_float [] c = Inr []"
| "times_float (Num m # cs) c =
     (case times_float cs c of
        Inl e \<Rightarrow> Inl e
      | Inr ms \<Rightarrow> Inr (m * c # ms))"
| "times_float (Text t # cs) c = Inl (TypeError t)"

fun make_rows ::
  "string list \<Rightarrow> cell list \<Rightarrow> real list \<Rightarrow> real list \<Rightarrow> real list \<Rightarrow> row list"
where
  "make_rows (f # fs) (l # ls) (n # ns) (d # ds) (p # ps) =
     \<lparr>FileName = f, LastValue = l, NumericPart = n, Drag_N = d, Potencia_necesaria = p\<rparr>
       # make_rows fs ls ns ds ps"
| "make_rows _ _ _ _ _ = []"

text \<open>From the dict of last values to the folder's table, column by column as the
  source computes it.\<close>

definition folder_table :: "real \<Rightarrow> real \<Rightarrow> (string \<times> cell) list \<Rightarrow> error + row list" where
  "folder_table lbf_a_N fts_a_ms data =
     (let FileName_col = map fst data;
          LastValue_col = map snd data
      in case apply_extract FileName_col of
           Inl e \<Rightarrow> Inl e
         | Inr NumericPart_col \<Rightarrow>
             (let v_true = map (\<lambda>x. x * fts_a_ms) NumericPart_col
              in case times_float LastValue_col lbf_a_N of
                   Inl e \<Rightarrow> Inl e
                 | Inr drag \<Rightarrow>
                     (let Potencia = map2 (\<lambda>v d. v * d / 1000) v_true drag;
                          NumericPart_ms = map (\<lambda>x. x * fts_a_ms) NumericPart_col
                      in Inr (make_rows FileName_col LastValue_col NumericPart_ms
                                drag Potencia))))"

subsection \<open>All folders\<close>

fun folders_loop ::
  "real \<Rightarrow> real \<Rightarrow> filesystem \<Rightarrow> string list
     \<Rightarrow> (string \<times> row list) list \<Rightarrow> event list
     \<Rightarrow> event list \<times> (error + (string \<times> row list) list)"
where
  "folders_loop lbf_a_N fts_a_ms fs [] all_data out = (out, Inr all_data)"
| "folders_loop lbf_a_N fts_a_ms fs (folder_path # rest) all_data out =
     (case fs folder_path of
        None \<Rightarrow> (out, Inl (OSError folder_path))
      | Some entries \<Rightarrow>
          (let data = fst (scan_folder entries);
               out1 = out @ snd (scan_folder entries)
           in if data = [] then
                folders_loop lbf_a_N fts_a_ms fs rest all_data
                  (out1 @ [Print (''No valid data found in folder '' @ folder_path @ ''.'')])
              else
                (case folder_table lbf_a_N fts_a_ms data of
                   Inl e \<Rightarrow> (out1, Inl e)
                 | Inr result_df \<Rightarrow>
                     folders_loop lbf_a_N fts_a_ms fs rest
                       (dict_set folder_path result_df all_data)
                       (out1 @ [PrintFrame result_df]))))"

text \<open>The function of the source, with the four atmosphere constants it computes
  and never uses.\<close>

definition process_csv_folders ::
  "filesystem \<Rightarrow> string list \<Rightarrow> event list \<times> (error + (string \<times> row list) list)"
where
  "process_csv_folders fs folder_paths =
     (let lbf_a_N = 4.44822 :: real;
          fts_a_ms = 0.3048 :: real;
          raiz_sigma_1700ft = ((1 - 22.558 * 10 powr (- 6) * 1700) powr 4.2559) powr (1 / 2);
          raiz_sigma_13000ft = ((1 - 22.558 * 10 powr (- 6) * 13000) powr 4.2559) powr (1 / 2);
          Tas_Eas_1700ft = fts_a_ms * raiz_sigma_1700ft;
          Tas_Eas_13000ft = fts_a_ms * raiz_sigma_13000ft
      in folders_loop lbf_a_N fts_a_ms fs folder_paths [] [])"

text \<open>The same function with lines 20 to 23 of the source deleted.\<close>

definition process_csv_folders_without_sigma ::
  "filesystem \<Rightarrow> string list \<Rightarrow> event list \<times> (error + (string \<times> row list) list)"
where
  "process_csv_folders_without_sigma fs folder_paths =
     (let lbf_a_N = 4.44822 :: real;
          fts_a_ms = 0.3048 :: real
      in folders_loop lbf_a_N fts_a_ms fs folder_paths [] [])"

subsection \<open>Merging, exporting and plotting\<close>

definition as_merged :: "row list \<Rightarrow> merged_row list" where
  "as_merged df =
     map (\<lambda>r. (NumericPart r,
               [(FileName r, LastValue r, Drag_N r, Potencia_necesaria r)])) df"

text \<open>\<open>pd.merge(left, right, on='NumericPart')\<close>, an inner join: every pair of a left
  and a right row with equal keys, in the order of the left rows.\<close>

definition pd_merge :: "merged_row list \<Rightarrow> row list \<Rightarrow> merged_row list" where
  "pd_merge left right =
     concat (map (\<lambda>l. map (\<lambda>r. (fst l, snd l @ [(FileName r, LastValue r, Drag_N r,
                                                   Potencia_necesaria r)]))
                          (filter (\<lambda>r. NumericPart r = fst l) right))
                 left)"

fun merge_loop ::
  "merged_row list option \<Rightarrow> (string \<times> row list) list \<Rightarrow> merged_row list option"
where
  "merge_loop merged_df [] = merged_df"
| "merge_loop None ((folder, df) # rest) = merge_loop (Some (as_merged df)) rest"
| "merge_loop (Some merged_df) ((folder, df) # rest) =
     merge_loop (Some (pd_merge merged_df df)) rest"

text \<open>\<open>sort_values(by='NumericPart')\<close>. Rows with equal keys keep their order here; the
  library's default sort does not promise that, and nothing below depends on it.\<close>

definition sort_values :: "merged_row list \<Rightarrow> merged_row list" where
  "sort_values merged_df = sort_key fst merged_df"

text \<open>The points of one folder, sorted by speed, as handed to \<open>interp1d\<close>.\<close>

definition points :: "row list \<Rightarrow> (real \<times> real) list" where
  "points df =
     map (\<lambda>r. (NumericPart r, Potencia_necesaria r)) (sort_key NumericPart df)"

text \<open>
  The plotting loop. Whether \<open>interp1d(x, y, kind='cubic')\<close> accepts the points is the
  library's business and a parameter here; when it refuses, its exception ends the run.
\<close>

fun plot_loop ::
  "((real \<times> real) list \<Rightarrow> bool) \<Rightarrow> (string \<times> row list) list \<Rightarrow> event list
     \<Rightarrow> event list \<times> error option"
where
  "plot_loop interp1d_ok [] out = (out, None)"
| "plot_loop interp1d_ok ((folder, df) # rest) out =
     (if interp1d_ok (points df) then
        plot_loop interp1d_ok rest
          (out @ [PlotCurve (''Power ('' @ basename folder @ '')'') (points df),
                  Scatter (''Data points '' @ basename folder) (points df)])
      else (out, Some (InterpError folder)))"

text \<open>The cubic fit of the library needs four points with distinct abscissas.\<close>

definition cubic_ok :: "(real \<times> real) list \<Rightarrow> bool" where
  "cubic_ok pts = (4 \<le> length pts \<and> distinct (map fst pts))"

definition quote :: string where
  "quote = [CHR 0x27]"

text \<open>Lines 81 to 141 of \<open>plot_data\<close>: what happens once the folders are processed.\<close>

definition merge_export_plot ::
  "((real \<times> real) list \<Rightarrow> bool) \<Rightarrow> (string \<times> row list) list \<Rightarrow> event list
     \<Rightarrow> string \<Rightarrow> string \<Rightarrow> event list \<times> error option"
where
  "merge_export_plot interp1d_ok all_dfs out output_file graph_file =
     (let merged_df = merge_loop None all_dfs in
      if merged_df = None \<or> merged_df = Some [] then
        (out @ [Print ''No valid merged data found. Exiting.''], None)
      else
        (let out1 = out @ [ToExcel output_file (sort_values (the merged_df)),
                           Print (''Output file '' @ quote @ output_file @ quote
                                  @ '' generated successfully.'')]
         in case plot_loop interp1d_ok all_dfs out1 of
              (out2, Some e) \<Rightarrow> (out2, Some e)
            | (out2, None) \<Rightarrow>
                (out2 @ [SaveFig graph_file,
                         Print (''Graph saved as '' @ quote @ graph_file @ quote @ ''.''),
                         Show], None)))"

definition plot_data ::
  "((real \<times> real) list \<Rightarrow> bool) \<Rightarrow> filesystem \<Rightarrow> string list \<Rightarrow> string \<Rightarrow> string
     \<Rightarrow> event list \<times> error option"
where
  "plot_data interp1d_ok fs folder_paths output_file graph_file =
     (case process_csv_folders fs folder_paths of
        (out, Inl e) \<Rightarrow> (out, Some e)
      | (out, Inr all_dfs) \<Rightarrow>
          merge_export_plot interp1d_ok all_dfs out output_file graph_file)"

text \<open>\<open>plot_data\<close> over the function without lines 20 to 23.\<close>

definition plot_data_without_sigma ::
  "((real \<times> real) list \<Rightarrow> bool) \<Rightarrow> filesystem \<Rightarrow> string list \<Rightarrow> string \<Rightarrow> string
     \<Rightarrow> event list \<times> error option"
where
  "plot_data_without_sigma interp1d_ok fs folder_paths output_file graph_file =
     (case process_csv_folders_without_sigma fs folder_paths of
        (out, Inl e) \<Rightarrow> (out, Some e)
      | (out, Inr all_dfs) \<Rightarrow>
          merge_export_plot interp1d_ok all_dfs out output_file graph_file)"

subsection \<open>Vocabulary of the statements\<close>

text \<open>The entries of a listing that the scan looks at.\<close>

definition csv_entries :: "dir_entry list \<Rightarrow> dir_entry list" where
  "csv_entries entries = filter (\<lambda>entry. endswith (fst entry) ''.csv'') entries"

text \<open>The second column of a table that was read.\<close>

fun second_column :: "read_csv \<Rightarrow> cell list" where
  "second_column (DataFrame df) = (if 1 < length df then df ! 1 else [])"
| "second_column (ReadError e) = []"

text \<open>A file that is read as a table with a second column and at least one row.\<close>

fun has_last_value :: "read_csv \<Rightarrow> bool" where
  "has_last_value (DataFrame df) = (1 < length df \<and> df ! 1 \<noteq> [])"
| "has_last_value (ReadError e) = False"

text \<open>A file that is read as a table with a second column, with or without rows.\<close>

fun has_two_columns :: "read_csv \<Rightarrow> bool" where
  "has_two_columns (DataFrame df) = (1 < length df)"
| "has_two_columns (ReadError e) = False"

text \<open>An entry that the scan looks at and leaves out, and what is printed for it.\<close>

definition skipped :: "dir_entry \<Rightarrow> bool" where
  "skipped entry = (endswith (fst entry) ''.csv'' \<and> \<not> has_last_value (snd entry))"

definition diagnostic :: "dir_entry \<Rightarrow> event" where
  "diagnostic entry =
     (case snd entry of
        ReadError e \<Rightarrow> Print (''Error reading '' @ fst entry @ '': '' @ e)
      | DataFrame df \<Rightarrow>
          if 1 < length df
          then Print (''Error reading '' @ fst entry @ '': '' @ index_error_message)
          else Print (''File '' @ fst entry @ '' does not have a second column.''))"

text \<open>A folder with one file that has rows and one that has two column heads and no
  row.\<close>

definition header_only_folder :: "dir_entry list" where
  "header_only_folder =
     [(''run.100.csv'', DataFrame [[Num 0, Num 1], [Num 40, Num 50]]),
      (''run.200.csv'', DataFrame [[], []])]"

text \<open>Events that create one of the two output files, and events that draw.\<close>

fun writes_file :: "event \<Rightarrow> bool" where
  "writes_file (ToExcel f t) = True"
| "writes_file (SaveFig f) = True"
| "writes_file ev = False"

fun draws :: "event \<Rightarrow> bool" where
  "draws (PlotCurve l pts) = True"
| "draws (Scatter l pts) = True"
| "draws ev = False"

text \<open>What is exported or drawn is ascending in the speed.\<close>

fun ascending :: "event \<Rightarrow> bool" where
  "ascending (ToExcel f t) = sorted (map fst t)"
| "ascending (PlotCurve l pts) = sorted (map fst pts)"
| "ascending (Scatter l pts) = sorted (map fst pts)"
| "ascending ev = True"

text \<open>The row that the conversion formulas give for a file with key \<open>k\<close> and last
  value \<open>m\<close>.\<close>

definition converted :: "string \<Rightarrow> real \<Rightarrow> real \<Rightarrow> row" where
  "converted name k m =
     \<lparr>FileName = name, LastValue = Num m, NumericPart = k * 0.3048,
      Drag_N = m * 4.44822,
      Potencia_necesaria = (k * 0.3048) * (m * 4.44822) / 1000\<rparr>"

text \<open>
  The end-to-end scenario: folder \<open>A\<close> with last values 50 and 80, folder \<open>B\<close> with 55
  and 85, for the keys 100 and 200. The listings are not in the order of the keys.
\<close>

definition scenario_fs :: filesystem where
  "scenario_fs path =
     (if path = ''A'' then
        Some [(''run.200.csv'', DataFrame [[Num 0, Num 1], [Num 70, Num 80]]),
              (''run.100.csv'', DataFrame [[Num 0, Num 1], [Num 40, Num 50]])]
      else if path = ''B'' then
        Some [(''run.100.csv'', DataFrame [[Num 0, Num 1], [Num 45, Num 55]]),
              (''run.200.csv'', DataFrame [[Num 0, Num 1], [Num 75, Num 85]])]
      else None)"

text \<open>Events that save the image.\<close>

fun saves_fig :: "event \<Rightarrow> bool" where
  "saves_fig (SaveFig f) = True"
| "saves_fig ev = False"

text \<open>A folder where one file with a good table has a name without a number.\<close>

definition bad_name_fs :: filesystem where
  "bad_name_fs path =
     (if path = ''A'' then
        Some [(''run.100.csv'', DataFrame [[Num 0, Num 1], [Num 40, Num 50]]),
              (''notes.csv'', DataFrame [[Num 0, Num 1], [Num 6, Num 7]])]
      else None)"

text \<open>Two folders without a common key.\<close>

definition disjoint_fs :: filesystem where
  "disjoint_fs path =
     (if path = ''A'' then
        Some [(''run.100.csv'', DataFrame [[Num 0, Num 1], [Num 40, Num 50]])]
      else if path = ''B'' then
        Some [(''run.200.csv'', DataFrame [[Num 0, Num 1], [Num 75, Num 85]])]
      else None)"

section \<open>The filename parser returns the last segment's number\<close>

lemma split_on_not_Nil: "split_on c s \<noteq> []"
  by (induction s) (auto split: list.splits)

lemma last_split_on_no_sep:
  "c \<notin> set s \<Longrightarrow> split_on c s = [s]"
  by (induction s) auto

lemma split_on_append:
  "split_on c (pre @ c # rest) = split_on c pre @ split_on c rest"
proof (induction pre)
  case Nil
  show ?case by simp
next
  case (Cons x pre)
  obtain seg segs where "split_on c pre = seg # segs"
    using split_on_not_Nil [of c pre] by (cases "split_on c pre") auto
  with Cons show ?case by simp
qed

lemma last_split_on_append:
  "c \<notin> set seg \<Longrightarrow> last (split_on c (pre @ c # seg)) = seg"
  by (simp add: split_on_append last_split_on_no_sep)

lemma is_digit_plain:
  "is_digit c \<Longrightarrow> c \<noteq> CHR ''.'' \<and> c \<noteq> CHR ''-'' \<and> c \<noteq> CHR ''+'' \<and> \<not> is_exp_mark c"
  by (auto simp: is_digit_def is_exp_mark_def)

lemma decimal_digits:
  "decimal ds = Some n \<Longrightarrow> ds \<noteq> [] \<and> list_all is_digit ds"
  by (simp add: decimal_def split: if_splits)

lemma py_float_decimal:
  assumes "decimal ds = Some n"
  shows "py_float ds = Inr (real n)"
proof -
  from assms have ne: "ds \<noteq> []" and dig: "list_all is_digit ds"
    using decimal_digits by blast+
  then obtain c r where ds: "ds = c # r" by (cases ds) auto
  with dig have "is_digit c" by simp
  then have sign: "strip_sign ds = (False, ds)"
    using is_digit_plain [of c] by (simp add: strip_sign_def ds)
  have "\<forall>x\<in>set ds. \<not> is_exp_mark x"
    using dig is_digit_plain by (auto simp: list_all_iff)
  then have tw: "takeWhile (\<lambda>c. \<not> is_exp_mark c) ds = ds"
    and dw: "dropWhile (\<lambda>c. \<not> is_exp_mark c) ds = []"
    by simp_all
  show ?thesis by (simp add: py_float_def sign tw dw assms)
qed

lemma decimal_no_dot: "decimal ds = Some n \<Longrightarrow> CHR ''.'' \<notin> set ds"
  using decimal_digits [of ds n] is_digit_plain by (auto simp: list_all_iff)

text \<open>A number written with a decimal point is two segments: only its digits after the
  point are parsed.\<close>

lemma decimal_point_splits_number: "extract_numeric_part ''run.3.14'' = Inr 14"
  by (simp add: extract_numeric_part_def py_float_def strip_sign_def decimal_def
        is_digit_def digit_val_def is_exp_mark_def)

text \<open>
  C7. For a name \<open>prefix.num\<close> whose last segment \<open>num\<close> holds no dot, the parser
  returns what \<open>float\<close> returns on \<open>num\<close>, whatever the prefix and however many dots it
  holds; when \<open>num\<close> is a string of decimal digits, that is the number it denotes.
\<close>

theorem extract_numeric_part_last_segment:
  "(CHR ''.'' \<notin> set num \<longrightarrow>
      extract_numeric_part (prefix @ ''.'' @ num) = py_float num)
   \<and> (decimal num = Some n \<longrightarrow>
      extract_numeric_part (prefix @ ''.'' @ num) = Inr (real n))"
proof -
  have a: "extract_numeric_part (prefix @ ''.'' @ num) = py_float num"
    if "CHR ''.'' \<notin> set num"
    using that by (simp add: extract_numeric_part_def last_split_on_append)
  have b: "extract_numeric_part (prefix @ ''.'' @ num) = Inr (real n)"
    if "decimal num = Some n"
    using that a decimal_no_dot py_float_decimal by simp
  from a b show ?thesis by blast
qed

theorem extract_numeric_part_last_segment_witness:
  "CHR ''.'' \<notin> set ''100'' \<and> decimal ''100'' = Some 100
   \<and> extract_numeric_part (''run.a.b'' @ ''.'' @ ''100'') = Inr 100"
proof -
  have d: "decimal ''100'' = Some 100"
    by (simp add: decimal_def is_digit_def digit_val_def)
  have "extract_numeric_part (''run.a.b'' @ ''.'' @ ''100'') = Inr (real 100)"
    using extract_numeric_part_last_segment [of "''100''" "''run.a.b''" 100] d by blast
  with d show ?thesis by simp
qed

section \<open>The scan of a folder\<close>

lemma scan_folder_snoc:
  "scan_folder (entries @ [entry]) = scan_file entry (scan_folder entries)"
  by (simp add: scan_folder_def)

lemma scan_file_data_only:
  "fst st = fst st' \<Longrightarrow> fst (scan_file entry st) = fst (scan_file entry st')"
  by (simp add: scan_file_def Let_def split: read_csv.splits option.splits)

lemma foldl_scan_data_only:
  "fst st = fst st' \<Longrightarrow>
   fst (foldl (\<lambda>st entry. scan_file entry st) st entries)
     = fst (foldl (\<lambda>st entry. scan_file entry st) st' entries)"
proof (induction entries arbitrary: st st')
  case Nil
  then show ?case by simp
next
  case (Cons entry entries)
  show ?case
    using Cons.IH [OF scan_file_data_only [OF Cons.prems]] by simp
qed

lemma scan_file_out_grows:
  "\<exists>more. snd (scan_file entry st) = snd st @ more
      \<and> list_all (\<lambda>ev. \<not> writes_file ev \<and> \<not> draws ev) more"
  by (simp add: scan_file_def Let_def split: read_csv.splits option.splits)

lemma foldl_scan_out_grows:
  "\<exists>more. snd (foldl (\<lambda>st entry. scan_file entry st) st entries) = snd st @ more
      \<and> list_all (\<lambda>ev. \<not> writes_file ev \<and> \<not> draws ev) more"
proof (induction entries arbitrary: st)
  case Nil
  then show ?case by simp
next
  case (Cons entry entries)
  obtain m1 where m1: "snd (scan_file entry st) = snd st @ m1"
      "list_all (\<lambda>ev. \<not> writes_file ev \<and> \<not> draws ev) m1"
    using scan_file_out_grows by blast
  obtain m2 where m2:
      "snd (foldl (\<lambda>st entry. scan_file entry st) (scan_file entry st) entries)
         = snd (scan_file entry st) @ m2"
      "list_all (\<lambda>ev. \<not> writes_file ev \<and> \<not> draws ev) m2"
    using Cons.IH by blast
  show ?case
    using m1 m2 by (intro exI [of _ "m1 @ m2"]) simp
qed

lemma scan_folder_quiet:
  "list_all (\<lambda>ev. \<not> writes_file ev \<and> \<not> draws ev) (snd (scan_folder entries))"
  using foldl_scan_out_grows [of "([], [])" entries] by (auto simp: scan_folder_def)

lemma scan_file_skipped:
  "skipped entry \<Longrightarrow> scan_file entry st = (fst st, snd st @ [diagnostic entry])"
  by (cases "snd entry")
     (auto simp: skipped_def diagnostic_def scan_file_def Let_def iloc_last_def)

lemma scan_skips:
  assumes "skipped entry"
  shows "fst (scan_folder (earlier @ entry # later)) = fst (scan_folder (earlier @ later))"
    and "diagnostic entry \<in> set (snd (scan_folder (earlier @ entry # later)))"
proof -
  let ?step = "\<lambda>st entry. scan_file entry st"
  let ?s = "scan_folder earlier"
  have 1: "scan_folder (earlier @ entry # later)
             = foldl ?step (fst ?s, snd ?s @ [diagnostic entry]) later"
    by (simp add: scan_folder_def scan_file_skipped [OF assms])
  have 2: "scan_folder (earlier @ later) = foldl ?step ?s later"
    by (simp add: scan_folder_def)
  show "fst (scan_folder (earlier @ entry # later)) = fst (scan_folder (earlier @ later))"
    unfolding 1 2 by (rule foldl_scan_data_only) simp
  obtain more where
    "snd (foldl ?step (fst ?s, snd ?s @ [diagnostic entry]) later)
       = snd (fst ?s, snd ?s @ [diagnostic entry]) @ more"
    using foldl_scan_out_grows by blast
  then show "diagnostic entry \<in> set (snd (scan_folder (earlier @ entry # later)))"
    unfolding 1 by simp
qed

text \<open>
  C5. A CSV file whose reading raises, whose table has fewer than two columns, or whose
  table has no row, is left out of the scan with a line that names it: the values kept
  from a listing that holds such a file are those kept from the listing without it,
  whatever comes before and after it, and the line is among those printed.
\<close>

theorem scan_folder_skips_bad_file:
  assumes "endswith filename ''.csv''"
      and "res = ReadError e \<and> msg = ''Error reading '' @ filename @ '': '' @ e
         \<or> res = DataFrame df \<and> length df \<le> 1
             \<and> msg = ''File '' @ filename @ '' does not have a second column.''
         \<or> res = DataFrame df \<and> 1 < length df \<and> df ! 1 = []
             \<and> msg = ''Error reading '' @ filename @ '': '' @ index_error_message"
  shows "fst (scan_folder (earlier @ (filename, res) # later)) = fst (scan_folder (earlier @ later))
       \<and> Print msg \<in> set (snd (scan_folder (earlier @ (filename, res) # later)))"
proof -
  have sk: "skipped (filename, res)"
    using assms by (auto simp: skipped_def)
  have "diagnostic (filename, res) = Print msg"
    using assms(2) by (auto simp: diagnostic_def)
  with scan_skips [OF sk, of earlier later] show ?thesis by simp
qed

theorem scan_folder_skips_bad_file_witness:
  "endswith ''run.200.csv'' ''.csv''
   \<and> fst (scan_folder [(''run.100.csv'', DataFrame [[Num 0], [Num 50]]),
                       (''run.200.csv'', ReadError ''No columns to parse from file''),
                       (''run.300.csv'', DataFrame [[Num 0], [Num 90]])])
       = [(''run.100'', Num 50), (''run.300'', Num 90)]
   \<and> Print ''Error reading run.200.csv: No columns to parse from file''
       \<in> set (snd (scan_folder [(''run.100.csv'', DataFrame [[Num 0], [Num 50]]),
                       (''run.200.csv'', ReadError ''No columns to parse from file''),
                       (''run.300.csv'', DataFrame [[Num 0], [Num 90]])]))"
proof -
  have csv: "endswith ''run.200.csv'' ''.csv''"
    by (simp add: endswith_def)
  have rest: "fst (scan_folder [(''run.100.csv'', DataFrame [[Num 0], [Num 50]]),
                                (''run.300.csv'', DataFrame [[Num 0], [Num 90]])])
                = [(''run.100'', Num 50), (''run.300'', Num 90)]"
    by (simp add: scan_folder_def scan_file_def endswith_def splitext_root_def iloc_last_def)
  show ?thesis
    using scan_folder_skips_bad_file
      [of "''run.200.csv''" "ReadError ''No columns to parse from file''"
          "''No columns to parse from file''"
          "''Error reading run.200.csv: No columns to parse from file''" "[]"
          "[(''run.100.csv'', DataFrame [[Num 0], [Num 50]])]"
          "[(''run.300.csv'', DataFrame [[Num 0], [Num 90]])]"]
      csv rest
    by simp
qed

lemma dict_set_fresh: "k \<notin> fst ` set d \<Longrightarrow> dict_set k v d = d @ [(k, v)]"
  by (induction d) auto

lemma scan_file_kept:
  "endswith (fst entry) ''.csv'' \<Longrightarrow> has_last_value (snd entry) \<Longrightarrow>
   scan_file entry st
     = (dict_set (splitext_root (fst entry)) (last (second_column (snd entry))) (fst st), snd st)"
  by (cases "snd entry") (auto simp: scan_file_def Let_def iloc_last_def)

lemma scan_file_other:
  "\<not> endswith (fst entry) ''.csv'' \<Longrightarrow> scan_file entry st = st"
  by (simp add: scan_file_def Let_def)

lemma scan_folder_all_kept:
  assumes "list_all (\<lambda>entry. has_last_value (snd entry)) (csv_entries entries)"
      and "distinct (map (\<lambda>entry. splitext_root (fst entry)) (csv_entries entries))"
  shows "scan_folder entries
           = (map (\<lambda>entry. (splitext_root (fst entry), last (second_column (snd entry))))
                  (csv_entries entries), [])"
  using assms
proof (induction entries rule: rev_induct)
  case Nil
  then show ?case by (simp add: scan_folder_def csv_entries_def)
next
  case (snoc entry entries)
  show ?case
  proof (cases "endswith (fst entry) ''.csv''")
    case False
    with snoc show ?thesis
      by (simp add: scan_folder_snoc scan_file_other csv_entries_def)
  next
    case True
    with snoc.prems have ok: "has_last_value (snd entry)"
      and fresh: "splitext_root (fst entry)
                    \<notin> (\<lambda>entry. splitext_root (fst entry)) ` set (csv_entries entries)"
      and rest: "list_all (\<lambda>entry. has_last_value (snd entry)) (csv_entries entries)"
                "distinct (map (\<lambda>entry. splitext_root (fst entry)) (csv_entries entries))"
      by (auto simp: csv_entries_def)
    have ih: "scan_folder entries
           = (map (\<lambda>entry. (splitext_root (fst entry), last (second_column (snd entry))))
                  (csv_entries entries), [])"
      using snoc.IH rest by blast
    have "splitext_root (fst entry) \<notin> fst ` set (fst (scan_folder entries))"
      using fresh by (force simp: ih image_iff)
    then show ?thesis
      using True ok
      by (simp add: scan_folder_snoc scan_file_kept dict_set_fresh ih csv_entries_def)
  qed
qed

text \<open>
  C6, as amended. When every CSV file of a folder is read as a table with at least two
  columns and at least one row, and the base names are pairwise distinct, the dict of
  the scan has one item per CSV file, in the order of the listing: the base name of the
  file with the last value of its second column. So it has as many items as there are
  CSV files, and looking a file's base name up gives that file's last value.
\<close>

theorem scan_folder_one_row_per_file:
  assumes "list_all (\<lambda>entry. has_last_value (snd entry)) (csv_entries entries)"
      and "distinct (map (\<lambda>entry. splitext_root (fst entry)) (csv_entries entries))"
  shows "fst (scan_folder entries)
           = map (\<lambda>entry. (splitext_root (fst entry), last (second_column (snd entry))))
                 (csv_entries entries)
       \<and> length (fst (scan_folder entries)) = length (csv_entries entries)
       \<and> (\<forall>entry \<in> set (csv_entries entries).
            map_of (fst (scan_folder entries)) (splitext_root (fst entry))
              = Some (last (second_column (snd entry))))"
proof -
  let ?item = "\<lambda>entry. (splitext_root (fst entry), last (second_column (snd entry)))"
  have eq: "fst (scan_folder entries) = map ?item (csv_entries entries)"
    using scan_folder_all_kept [OF assms] by simp
  have dist: "distinct (map fst (map ?item (csv_entries entries)))"
    using assms(2) by (simp add: comp_def)
  have "map_of (map ?item (csv_entries entries)) (splitext_root (fst entry))
          = Some (last (second_column (snd entry)))"
    if "entry \<in> set (csv_entries entries)" for entry
    using that by (intro map_of_is_SomeI [OF dist]) auto
  with eq show ?thesis by simp
qed

theorem scan_folder_one_row_per_file_witness:
  "fst (scan_folder [(''run.200.csv'', DataFrame [[Num 0, Num 1], [Num 70, Num 80]]),
                     (''notes.txt'', ReadError ''not read''),
                     (''run.100.csv'', DataFrame [[Num 0, Num 1], [Num 40, Num 50]])])
     = [(''run.200'', Num 80), (''run.100'', Num 50)]"
proof -
  let ?entries = "[(''run.200.csv'', DataFrame [[Num 0, Num 1], [Num 70, Num 80]]),
                   (''notes.txt'', ReadError ''not read''),
                   (''run.100.csv'', DataFrame [[Num 0, Num 1], [Num 40, Num 50]])]"
  have csv: "csv_entries ?entries
      = [(''run.200.csv'', DataFrame [[Num 0, Num 1], [Num 70, Num 80]]),
         (''run.100.csv'', DataFrame [[Num 0, Num 1], [Num 40, Num 50]])]"
    by (simp add: csv_entries_def endswith_def)
  have h1: "list_all (\<lambda>entry. has_last_value (snd entry)) (csv_entries ?entries)"
    unfolding csv by simp
  have h2: "distinct (map (\<lambda>entry. splitext_root (fst entry)) (csv_entries ?entries))"
    unfolding csv by (simp add: splitext_root_def)
  from scan_folder_one_row_per_file [OF h1 h2]
  have "fst (scan_folder ?entries)
          = map (\<lambda>entry. (splitext_root (fst entry), last (second_column (snd entry))))
                (csv_entries ?entries)"
    by blast
  then show ?thesis
    unfolding csv by (simp add: splitext_root_def)
qed

text \<open>
  C6 as it is stated asks for two columns only. A file with two column heads and no row
  is then counted among the \<open>N\<close> files, but the lookup of its last row fails, the
  handler prints and the file is left out: two such files in the folder, one item in
  the dict.
\<close>

theorem scan_folder_header_only_counterexample:
  "csv_entries header_only_folder = header_only_folder
   \<and> length header_only_folder = 2
   \<and> has_two_columns (snd (header_only_folder ! 0))
   \<and> has_two_columns (snd (header_only_folder ! 1))
   \<and> splitext_root (fst (header_only_folder ! 0)) \<noteq> splitext_root (fst (header_only_folder ! 1))
   \<and> fst (scan_folder header_only_folder) = [(''run.100'', Num 50)]
   \<and> length (fst (scan_folder header_only_folder)) \<noteq> 2"
  by (simp add: header_only_folder_def csv_entries_def endswith_def splitext_root_def
        scan_folder_def scan_file_def iloc_last_def)

section \<open>The conversion of a folder's table\<close>

lemmas parse_defs = extract_numeric_part_def py_float_def strip_sign_def decimal_def
  is_digit_def digit_val_def is_exp_mark_def

lemmas scan_defs = scan_folder_def scan_file_def endswith_def splitext_root_def iloc_last_def

lemma apply_extract_nth:
  "apply_extract ns = Inr ks \<Longrightarrow>
   length ks = length ns \<and> (\<forall>i<length ns. extract_numeric_part (ns ! i) = Inr (ks ! i))"
proof (induction ns arbitrary: ks)
  case Nil
  then show ?case by simp
next
  case (Cons n ns)
  from Cons.prems obtain k ks' where
    k: "extract_numeric_part n = Inr k" and ks': "apply_extract ns = Inr ks'"
    and ks: "ks = k # ks'"
    by (auto split: sum.splits)
  from Cons.IH [OF ks'] show ?case
    by (auto simp: ks k nth_Cons split: nat.splits)
qed

lemma times_float_nth:
  "times_float cs c = Inr ms \<Longrightarrow>
   length ms = length cs \<and> (\<forall>i<length cs. \<exists>m. cs ! i = Num m \<and> ms ! i = m * c)"
proof (induction cs c arbitrary: ms rule: times_float.induct)
  case (1 c)
  then show ?case by simp
next
  case (2 m cs c)
  from "2.prems" obtain ms' where ms': "times_float cs c = Inr ms'" and ms: "ms = m * c # ms'"
    by (auto split: sum.splits)
  from "2.IH" [OF ms'] show ?case
    by (auto simp: ms nth_Cons split: nat.splits)
next
  case (3 t cs c)
  then show ?case by simp
qed

lemma make_rows_nth:
  "length ls = length fs \<Longrightarrow> length ns = length fs \<Longrightarrow> length ds = length fs \<Longrightarrow>
   length ps = length fs \<Longrightarrow>
   length (make_rows fs ls ns ds ps) = length fs \<and>
   (\<forall>i<length fs. make_rows fs ls ns ds ps ! i =
      \<lparr>FileName = fs ! i, LastValue = ls ! i, NumericPart = ns ! i, Drag_N = ds ! i,
       Potencia_necesaria = ps ! i\<rparr>)"
proof (induction fs ls ns ds ps rule: make_rows.induct)
  case (1 f fs l ls n ns d ds p ps)
  then show ?case by (auto simp: nth_Cons split: nat.splits)
qed simp_all

lemma folder_table_rows:
  assumes "folder_table 4.44822 0.3048 data = Inr table"
  shows "list_all2 (\<lambda>item r. \<exists>k m. extract_numeric_part (fst item) = Inr k \<and> snd item = Num m
                         \<and> r = converted (fst item) k m) data table"
proof -
  from assms obtain ks drag where
    ks: "apply_extract (map fst data) = Inr ks"
    and drag: "times_float (map snd data) 4.44822 = Inr drag"
    and table: "table = make_rows (map fst data) (map snd data) (map (\<lambda>x. x * 0.3048) ks) drag
                  (map2 (\<lambda>v d. v * d / 1000) (map (\<lambda>x. x * 0.3048) ks) drag)"
    by (auto simp: folder_table_def Let_def split: sum.splits)
  from apply_extract_nth [OF ks] have lk: "length ks = length data"
    and ek: "\<And>i. i < length data \<Longrightarrow> extract_numeric_part (fst (data ! i)) = Inr (ks ! i)"
    by auto
  from times_float_nth [OF drag] have ld: "length drag = length data"
    and ed: "\<And>i. i < length data \<Longrightarrow> \<exists>m. snd (data ! i) = Num m \<and> drag ! i = m * 4.44822"
    by auto
  have rows: "length table = length data"
    "\<And>i. i < length data \<Longrightarrow> table ! i =
       \<lparr>FileName = fst (data ! i), LastValue = snd (data ! i), NumericPart = ks ! i * 0.3048,
        Drag_N = drag ! i, Potencia_necesaria = (ks ! i * 0.3048) * (drag ! i) / 1000\<rparr>"
    using make_rows_nth [of "map snd data" "map fst data" "map (\<lambda>x. x * 0.3048) ks" drag
        "map2 (\<lambda>v d. v * d / 1000) (map (\<lambda>x. x * 0.3048) ks) drag"] lk ld
    by (simp_all add: table)
  show ?thesis
    unfolding list_all2_conv_all_nth
  proof (intro conjI allI impI)
    show "length data = length table" by (simp add: rows)
  next
    fix i assume i: "i < length data"
    from ed [OF i] obtain m where m: "snd (data ! i) = Num m" "drag ! i = m * 4.44822" by blast
    show "\<exists>k m. extract_numeric_part (fst (data ! i)) = Inr k \<and> snd (data ! i) = Num m
             \<and> table ! i = converted (fst (data ! i)) k m"
      using ek [OF i] m rows(2) [OF i] by (intro exI [of _ "ks ! i"] exI [of _ m]) (simp add: converted_def)
  qed
qed

lemma dict_set_set: "set (dict_set k v d) \<subseteq> insert (k, v) (set d)"
  by (induction d) (auto split: if_splits)

lemma folders_loop_tables:
  assumes "folders_loop lbf fts fs paths all_data out = (out', Inr all_dfs)"
      and "\<And>p t. (p, t) \<in> set all_data \<Longrightarrow> P p t"
      and "\<And>p entries t. fs p = Some entries \<Longrightarrow> fst (scan_folder entries) \<noteq> [] \<Longrightarrow>
             folder_table lbf fts (fst (scan_folder entries)) = Inr t \<Longrightarrow> P p t"
  shows "(p, t) \<in> set all_dfs \<Longrightarrow> P p t"
  using assms(1,2)
proof (induction paths arbitrary: all_data out)
  case Nil
  then show ?case by simp
next
  case (Cons path paths)
  from Cons.prems(2) obtain entries where entries: "fs path = Some entries"
    by (cases "fs path") auto
  show ?case
  proof (cases "fst (scan_folder entries) = []")
    case True
    with Cons.prems entries show ?thesis
      using Cons.IH by (auto simp: Let_def)
  next
    case False
    with Cons.prems(2) entries obtain result_df where
      df: "folder_table lbf fts (fst (scan_folder entries)) = Inr result_df"
      and loop: "folders_loop lbf fts fs paths (dict_set path result_df all_data)
                  (out @ snd (scan_folder entries) @ [PrintFrame result_df]) = (out', Inr all_dfs)"
      by (auto simp: Let_def split: sum.splits)
    have "P q u" if "(q, u) \<in> set (dict_set path result_df all_data)" for q u
      using that dict_set_set [of path result_df all_data] Cons.prems(3) assms(3) [OF entries False df]
      by auto
    with Cons.IH [OF Cons.prems(1) loop] show ?thesis by blast
  qed
qed


lemma scenario_tables:
  "process_csv_folders scenario_fs [''A'', ''B''] =
     ([PrintFrame [converted ''run.200'' 200 80, converted ''run.100'' 100 50],
       PrintFrame [converted ''run.100'' 100 55, converted ''run.200'' 200 85]],
      Inr [(''A'', [converted ''run.200'' 200 80, converted ''run.100'' 100 50]),
           (''B'', [converted ''run.100'' 100 55, converted ''run.200'' 200 85])])"
  by (simp add: process_csv_folders_def Let_def scenario_fs_def scan_defs folder_table_def
      parse_defs converted_def)

text \<open>
  C1. Every table that \<open>process_csv_folders\<close> returns for a folder has one row per item
  of that folder's scan, in the same order; the item's name parses to a key \<open>k\<close>, its
  value is a number \<open>m\<close>, and the row holds \<open>k * 0.3048\<close> as speed, \<open>m * 4.44822\<close> as
  drag and \<open>(k * 0.3048) * (m * 4.44822) / 1000\<close> as power. In the scenario with the keys
  100 and 200 and the values 50 and 80 in one folder, 55 and 85 in the other, the table
  written to the spreadsheet has the two rows of the keys 30.48 and 60.96, in that
  order, with these drags and powers. (With two points per folder the cubic fit then
  refuses the first folder.)
\<close>

theorem folder_table_converted:
  "(process_csv_folders fs folder_paths = (out, Inr all_dfs) \<and> (folder, table) \<in> set all_dfs
      \<longrightarrow> (\<exists>entries. fs folder = Some entries
             \<and> list_all2 (\<lambda>item r. \<exists>k m. extract_numeric_part (fst item) = Inr k
                                    \<and> snd item = Num m
                                    \<and> r = converted (fst item) k m)
                 (fst (scan_folder entries)) table))
   \<and> plot_data cubic_ok scenario_fs [''A'', ''B''] ''merged_output.xlsx''
        ''merged_output_graph.png''
     = ([PrintFrame [converted ''run.200'' 200 80, converted ''run.100'' 100 50],
         PrintFrame [converted ''run.100'' 100 55, converted ''run.200'' 200 85],
         ToExcel ''merged_output.xlsx''
           [(30.48, [(''run.100'', Num 50, 50 * 4.44822, 30.48 * (50 * 4.44822) / 1000),
                     (''run.100'', Num 55, 55 * 4.44822, 30.48 * (55 * 4.44822) / 1000)]),
            (60.96, [(''run.200'', Num 80, 80 * 4.44822, 60.96 * (80 * 4.44822) / 1000),
                     (''run.200'', Num 85, 85 * 4.44822, 60.96 * (85 * 4.44822) / 1000)])],
         Print (''Output file '' @ quote @ ''merged_output.xlsx'' @ quote
                @ '' generated successfully.'')],
        Some (InterpError ''A''))"
proof (intro conjI impI)
  assume a: "process_csv_folders fs folder_paths = (out, Inr all_dfs)
               \<and> (folder, table) \<in> set all_dfs"
  let ?P = "\<lambda>p t. \<exists>entries. fs p = Some entries
             \<and> list_all2 (\<lambda>item r. \<exists>k m. extract_numeric_part (fst item) = Inr k
                                    \<and> snd item = Num m
                                    \<and> r = converted (fst item) k m)
                 (fst (scan_folder entries)) t"
  from a have loop: "folders_loop 4.44822 0.3048 fs folder_paths [] [] = (out, Inr all_dfs)"
    by (simp add: process_csv_folders_def Let_def)
  show "?P folder table"
  proof (rule folders_loop_tables [where P = ?P, OF loop])
    show "(folder, table) \<in> set all_dfs" using a by simp
  next
    fix p t assume "(p, t) \<in> set ([] :: (string \<times> row list) list)"
    then show "?P p t" by simp
  next
    fix p entries t
    assume "fs p = Some entries"
      and "folder_table 4.44822 0.3048 (fst (scan_folder entries)) = Inr t"
    then show "?P p t" using folder_table_rows by blast
  qed
next
  show "plot_data cubic_ok scenario_fs [''A'', ''B''] ''merged_output.xlsx''
        ''merged_output_graph.png''
     = ([PrintFrame [converted ''run.200'' 200 80, converted ''run.100'' 100 50],
         PrintFrame [converted ''run.100'' 100 55, converted ''run.200'' 200 85],
         ToExcel ''merged_output.xlsx''
           [(30.48, [(''run.100'', Num 50, 50 * 4.44822, 30.48 * (50 * 4.44822) / 1000),
                     (''run.100'', Num 55, 55 * 4.44822, 30.48 * (55 * 4.44822) / 1000)]),
            (60.96, [(''run.200'', Num 80, 80 * 4.44822, 60.96 * (80 * 4.44822) / 1000),
                     (''run.200'', Num 85, 85 * 4.44822, 60.96 * (85 * 4.44822) / 1000)])],
         Print (''Output file '' @ quote @ ''merged_output.xlsx'' @ quote
                @ '' generated successfully.'')],
        Some (InterpError ''A''))"
    by (simp add: plot_data_def scenario_tables merge_export_plot_def Let_def as_merged_def
        pd_merge_def sort_values_def points_def cubic_ok_def converted_def)
qed

theorem folder_table_converted_witness:
  "(''A'', [converted ''run.200'' 200 80, converted ''run.100'' 100 50])
     \<in> set [(''A'', [converted ''run.200'' 200 80, converted ''run.100'' 100 50]),
            (''B'', [converted ''run.100'' 100 55, converted ''run.200'' 200 85])]
   \<and> (\<exists>entries. scenario_fs ''A'' = Some entries
         \<and> list_all2 (\<lambda>item r. \<exists>k m. extract_numeric_part (fst item) = Inr k
                                \<and> snd item = Num m
                                \<and> r = converted (fst item) k m)
             (fst (scan_folder entries))
             [converted ''run.200'' 200 80, converted ''run.100'' 100 50])"
  using folder_table_converted
    [of scenario_fs "[''A'', ''B'']"
        "[PrintFrame [converted ''run.200'' 200 80, converted ''run.100'' 100 50],
          PrintFrame [converted ''run.100'' 100 55, converted ''run.200'' 200 85]]"
        "[(''A'', [converted ''run.200'' 200 80, converted ''run.100'' 100 50]),
          (''B'', [converted ''run.100'' 100 55, converted ''run.200'' 200 85])]"
        "''A''" "[converted ''run.200'' 200 80, converted ''run.100'' 100 50]"]
    scenario_tables
  by simp

section \<open>The merge\<close>

lemma keys_as_merged: "fst ` set (as_merged df) = NumericPart ` set df"
  by (auto simp: as_merged_def image_iff)

lemma keys_pd_merge:
  "fst ` set (pd_merge left right) = fst ` set left \<inter> NumericPart ` set right"
  by (auto simp: pd_merge_def image_iff) force+

lemma merge_loop_Some:
  "\<exists>m. merge_loop (Some merged_df) all_dfs = Some m
      \<and> fst ` set m = fst ` set merged_df \<inter> (\<Inter>(folder, df) \<in> set all_dfs. NumericPart ` set df)"
proof (induction all_dfs arbitrary: merged_df)
  case Nil
  then show ?case by simp
next
  case (Cons a all_dfs)
  obtain folder df where a: "a = (folder, df)" by (cases a)
  from Cons [of "pd_merge merged_df df"] show ?case
    by (auto simp: a keys_pd_merge)
qed

lemma merge_loop_None_iff: "merge_loop None all_dfs = None \<longleftrightarrow> all_dfs = []"
proof (cases all_dfs)
  case Nil
  then show ?thesis by simp
next
  case (Cons a rest)
  obtain folder df where a: "a = (folder, df)" by (cases a)
  from merge_loop_Some [of "as_merged df" rest] show ?thesis
    by (auto simp: Cons a)
qed

lemma merge_loop_keys:
  assumes "merge_loop None all_dfs = Some merged"
  shows "k \<in> fst ` set merged \<longleftrightarrow> list_all (\<lambda>(folder, df). k \<in> NumericPart ` set df) all_dfs"
proof (cases all_dfs)
  case Nil
  with assms show ?thesis by simp
next
  case (Cons a rest)
  obtain folder df where a: "a = (folder, df)" by (cases a)
  from merge_loop_Some [of "as_merged df" rest] assms show ?thesis
    by (auto simp: Cons a keys_as_merged list_all_iff)
qed

lemma filter_unique_key:
  "distinct (map f xs) \<Longrightarrow> k \<in> f ` set xs \<Longrightarrow> length (filter (\<lambda>x. f x = k) xs) = 1"
proof (induction xs)
  case Nil
  then show ?case by simp
next
  case (Cons x xs)
  show ?case
  proof (cases "f x = k")
    case True
    with Cons.prems have "filter (\<lambda>x. f x = k) xs = []"
      by (force simp: filter_empty_conv image_iff)
    with True show ?thesis by simp
  next
    case False
    with Cons show ?thesis by auto
  qed
qed

lemma length_pd_merge_matching:
  assumes "distinct (map NumericPart right)" and "fst ` set left \<subseteq> NumericPart ` set right"
  shows "length (pd_merge left right) = length left"
  using assms(2)
proof (induction left)
  case Nil
  then show ?case by (simp add: pd_merge_def)
next
  case (Cons l left)
  have "length (filter (\<lambda>r. NumericPart r = fst l) right) = 1"
    using filter_unique_key [OF assms(1), of "fst l"] Cons.prems by auto
  with Cons show ?case by (simp add: pd_merge_def)
qed

lemma pd_merge_disjoint:
  "fst ` set left \<inter> NumericPart ` set right = {} \<Longrightarrow> pd_merge left right = []"
  using keys_pd_merge [of left right] by simp


text \<open>
  C2. The loop over the folder tables is a chain of inner joins on the speed: a key is
  in the merged table exactly when it is in every folder table. Two tables without a
  common key give an empty merged table; two tables with the same keys, each key once
  per table, give a merged table, sorted or not, with one row per key.
\<close>

theorem merge_loop_inner_join:
  "(merge_loop None all_dfs = Some merged
      \<longrightarrow> (k \<in> fst ` set merged
            \<longleftrightarrow> list_all (\<lambda>(folder, df). k \<in> NumericPart ` set df) all_dfs))
   \<and> (NumericPart ` set A \<inter> NumericPart ` set B = {}
      \<longrightarrow> merge_loop None [(a, A), (b, B)] = Some [])
   \<and> (distinct (map NumericPart A) \<and> distinct (map NumericPart B)
        \<and> NumericPart ` set A = NumericPart ` set B
      \<longrightarrow> (\<exists>m. merge_loop None [(a, A), (b, B)] = Some m
               \<and> length m = card (NumericPart ` set A)
               \<and> length (sort_values m) = card (NumericPart ` set A)))"
proof (intro conjI impI)
  assume "merge_loop None all_dfs = Some merged"
  then show "k \<in> fst ` set merged
            \<longleftrightarrow> list_all (\<lambda>(folder, df). k \<in> NumericPart ` set df) all_dfs"
    by (rule merge_loop_keys)
next
  assume "NumericPart ` set A \<inter> NumericPart ` set B = {}"
  then show "merge_loop None [(a, A), (b, B)] = Some []"
    by (simp add: pd_merge_disjoint keys_as_merged)
next
  assume h: "distinct (map NumericPart A) \<and> distinct (map NumericPart B)
        \<and> NumericPart ` set A = NumericPart ` set B"
  then have "length (pd_merge (as_merged A) B) = length (as_merged A)"
    by (intro length_pd_merge_matching) (simp_all add: keys_as_merged)
  moreover have "card (NumericPart ` set A) = length A"
    using h distinct_card [of "map NumericPart A"] by simp
  ultimately show "\<exists>m. merge_loop None [(a, A), (b, B)] = Some m
               \<and> length m = card (NumericPart ` set A)
               \<and> length (sort_values m) = card (NumericPart ` set A)"
    by (simp add: as_merged_def sort_values_def)
qed

theorem merge_loop_inner_join_witness:
  "merge_loop None [(''A'', [converted ''run.100'' 100 50]),
                    (''B'', [converted ''run.200'' 200 85])] = Some []
   \<and> (\<exists>m. merge_loop None [(''A'', [converted ''run.200'' 200 80, converted ''run.100'' 100 50]),
                           (''B'', [converted ''run.100'' 100 55, converted ''run.200'' 200 85])]
             = Some m
          \<and> length m = 2)"
proof -
  have d: "NumericPart ` set [converted ''run.100'' 100 50]
             \<inter> NumericPart ` set [converted ''run.200'' 200 85] = {}"
    by (simp add: converted_def)
  have e: "distinct (map NumericPart [converted ''run.200'' 200 80, converted ''run.100'' 100 50])
         \<and> distinct (map NumericPart [converted ''run.100'' 100 55, converted ''run.200'' 200 85])
         \<and> NumericPart ` set [converted ''run.200'' 200 80, converted ''run.100'' 100 50]
             = NumericPart ` set [converted ''run.100'' 100 55, converted ''run.200'' 200 85]"
    by (auto simp: converted_def)
  have c: "card (NumericPart ` set [converted ''run.200'' 200 80, converted ''run.100'' 100 50]) = 2"
    by (simp add: converted_def)
  from merge_loop_inner_join
      [of "[]" "[]" 0 "[converted ''run.100'' 100 50]" "[converted ''run.200'' 200 85]"
          "''A''" "''B''"] d
  have 1: "merge_loop None [(''A'', [converted ''run.100'' 100 50]),
                            (''B'', [converted ''run.200'' 200 85])] = Some []"
    by blast
  from merge_loop_inner_join
      [of "[]" "[]" 0 "[converted ''run.200'' 200 80, converted ''run.100'' 100 50]"
          "[converted ''run.100'' 100 55, converted ''run.200'' 200 85]" "''A''" "''B''"] e
  have 2: "\<exists>m. merge_loop None
                 [(''A'', [converted ''run.200'' 200 80, converted ''run.100'' 100 50]),
                  (''B'', [converted ''run.100'' 100 55, converted ''run.200'' 200 85])]
               = Some m
             \<and> length m
                = card (NumericPart ` set [converted ''run.200'' 200 80, converted ''run.100'' 100 50])"
    by blast
  from 1 2 show ?thesis unfolding c by blast
qed

section \<open>Export and plot\<close>

lemma plot_loop_appends:
  "\<exists>drawn. fst (plot_loop ok all_dfs out) = out @ drawn
      \<and> list_all (\<lambda>ev. draws ev \<and> ascending ev) drawn"
proof (induction all_dfs arbitrary: out)
  case Nil
  then show ?case by simp
next
  case (Cons a all_dfs)
  obtain folder df where a: "a = (folder, df)" by (cases a)
  show ?case
  proof (cases "ok (points df)")
    case False
    then show ?thesis by (simp add: a)
  next
    case True
    let ?two = "[PlotCurve (''Power ('' @ basename folder @ '')'') (points df),
                 Scatter (''Data points '' @ basename folder) (points df)]"
    obtain drawn where d: "fst (plot_loop ok all_dfs (out @ ?two)) = (out @ ?two) @ drawn"
      "list_all (\<lambda>ev. draws ev \<and> ascending ev) drawn"
      using Cons [of "out @ ?two"] by blast
    have s: "sorted (map fst (points df))"
      by (simp add: points_def comp_def)
    show ?thesis
      using d s True by (intro exI [of _ "?two @ drawn"]) (simp add: a)
  qed
qed

lemma plot_loop_fails:
  "list_ex (\<lambda>(folder, df). \<not> ok (points df)) all_dfs \<Longrightarrow>
   \<exists>folder. snd (plot_loop ok all_dfs out) = Some (InterpError folder)"
proof (induction all_dfs arbitrary: out)
  case Nil
  then show ?case by simp
next
  case (Cons a all_dfs)
  obtain folder df where a: "a = (folder, df)" by (cases a)
  with Cons show ?case by (cases "ok (points df)") auto
qed

lemma plot_loop_succeeds:
  "list_all (\<lambda>(folder, df). ok (points df)) all_dfs \<Longrightarrow> snd (plot_loop ok all_dfs out) = None"
proof (induction all_dfs arbitrary: out)
  case Nil
  then show ?case by simp
next
  case (Cons a all_dfs)
  obtain folder df where a: "a = (folder, df)" by (cases a)
  with Cons show ?case by auto
qed

lemma folders_loop_quiet:
  "list_all (\<lambda>ev. \<not> writes_file ev \<and> \<not> draws ev) out \<Longrightarrow>
   list_all (\<lambda>ev. \<not> writes_file ev \<and> \<not> draws ev)
     (fst (folders_loop lbf fts fs paths all_data out))"
proof (induction paths arbitrary: all_data out)
  case Nil
  then show ?case by simp
next
  case (Cons path paths)
  show ?case
  proof (cases "fs path")
    case None
    with Cons.prems show ?thesis by simp
  next
    case (Some entries)
    have q: "list_all (\<lambda>ev. \<not> writes_file ev \<and> \<not> draws ev) (out @ snd (scan_folder entries))"
      using Cons.prems scan_folder_quiet by simp
    show ?thesis
    proof (cases "fst (scan_folder entries) = []")
      case True
      with Some q show ?thesis
        using Cons.IH [of "out @ snd (scan_folder entries)
            @ [Print (''No valid data found in folder '' @ path @ ''.'')]" all_data]
        by (simp add: Let_def)
    next
      case False
      show ?thesis
      proof (cases "folder_table lbf fts (fst (scan_folder entries))")
        case (Inl e)
        with Some False q show ?thesis by (simp add: Let_def)
      next
        case (Inr result_df)
        with Some False q show ?thesis
          using Cons.IH [of "out @ snd (scan_folder entries) @ [PrintFrame result_df]"
              "dict_set path result_df all_data"]
          by (simp add: Let_def)
      qed
    qed
  qed
qed

lemma process_csv_folders_quiet:
  "list_all (\<lambda>ev. \<not> writes_file ev \<and> \<not> draws ev) (fst (process_csv_folders fs paths))"
  using folders_loop_quiet [of "[]"] by (simp add: process_csv_folders_def Let_def)


lemma merge_export_plot_exit:
  assumes "merge_loop None all_dfs = None \<or> merge_loop None all_dfs = Some []"
  shows "merge_export_plot ok all_dfs out output_file graph_file
           = (out @ [Print ''No valid merged data found. Exiting.''], None)"
  using assms by (auto simp: merge_export_plot_def)

lemma merge_export_plot_exported:
  assumes "merge_loop None all_dfs = Some merged" and "merged \<noteq> []"
  shows "\<exists>drawn. list_all (\<lambda>ev. draws ev \<and> ascending ev) drawn
     \<and> (list_ex (\<lambda>(folder, df). \<not> ok (points df)) all_dfs
          \<and> (\<exists>folder. merge_export_plot ok all_dfs out output_file graph_file
                = (out @ [ToExcel output_file (sort_values merged),
                          Print (''Output file '' @ quote @ output_file @ quote
                                 @ '' generated successfully.'')] @ drawn,
                   Some (InterpError folder)))
        \<or> list_all (\<lambda>(folder, df). ok (points df)) all_dfs
          \<and> merge_export_plot ok all_dfs out output_file graph_file
                = (out @ [ToExcel output_file (sort_values merged),
                          Print (''Output file '' @ quote @ output_file @ quote
                                 @ '' generated successfully.'')] @ drawn
                       @ [SaveFig graph_file,
                          Print (''Graph saved as '' @ quote @ graph_file @ quote @ ''.''),
                          Show],
                   None))"
proof -
  let ?out1 = "out @ [ToExcel output_file (sort_values merged),
                      Print (''Output file '' @ quote @ output_file @ quote
                             @ '' generated successfully.'')]"
  obtain drawn where d: "fst (plot_loop ok all_dfs ?out1) = ?out1 @ drawn"
      "list_all (\<lambda>ev. draws ev \<and> ascending ev) drawn"
    using plot_loop_appends by blast
  show ?thesis
  proof (cases "list_ex (\<lambda>(folder, df). \<not> ok (points df)) all_dfs")
    case True
    then obtain folder where "snd (plot_loop ok all_dfs ?out1) = Some (InterpError folder)"
      using plot_loop_fails by blast
    with d(1) have "plot_loop ok all_dfs ?out1 = (?out1 @ drawn, Some (InterpError folder))"
      by (metis prod.collapse)
    with assms True d(2) show ?thesis
      by (intro exI [of _ drawn]) (simp add: merge_export_plot_def)
  next
    case False
    then have all: "list_all (\<lambda>(folder, df). ok (points df)) all_dfs"
      by (auto simp: list_ex_iff list_all_iff)
    then have "snd (plot_loop ok all_dfs ?out1) = None"
      by (rule plot_loop_succeeds)
    with d(1) have "plot_loop ok all_dfs ?out1 = (?out1 @ drawn, None)"
      by (metis prod.collapse)
    with assms all d(2) show ?thesis
      by (intro exI [of _ drawn]) (simp add: merge_export_plot_def)
  qed
qed

section \<open>The whole run\<close>

lemma disjoint_tables:
  "process_csv_folders disjoint_fs [''A'', ''B''] =
     ([PrintFrame [converted ''run.100'' 100 50], PrintFrame [converted ''run.200'' 200 85]],
      Inr [(''A'', [converted ''run.100'' 100 50]), (''B'', [converted ''run.200'' 200 85])])"
  by (simp add: process_csv_folders_def Let_def disjoint_fs_def scan_defs folder_table_def
      parse_defs converted_def)

text \<open>
  C4. When the folders are processed without an exception and the merge gives no table
  (which happens exactly when no folder gave a table) or an empty one, the run prints
  its line and ends there, without an exception: nothing in its trace writes the
  spreadsheet or the image, and nothing draws.
\<close>

theorem plot_data_exits_without_output:
  assumes "process_csv_folders fs folder_paths = (out, Inr all_dfs)"
      and "merge_loop None all_dfs = None \<or> merge_loop None all_dfs = Some []"
  shows "plot_data ok fs folder_paths output_file graph_file
           = (out @ [Print ''No valid merged data found. Exiting.''], None)
       \<and> \<not> list_ex writes_file (fst (plot_data ok fs folder_paths output_file graph_file))
       \<and> \<not> list_ex draws (fst (plot_data ok fs folder_paths output_file graph_file))
       \<and> (merge_loop None all_dfs = None \<longleftrightarrow> all_dfs = [])"
proof -
  have run: "plot_data ok fs folder_paths output_file graph_file
           = (out @ [Print ''No valid merged data found. Exiting.''], None)"
    using assms by (simp add: plot_data_def merge_export_plot_exit)
  have "list_all (\<lambda>ev. \<not> writes_file ev \<and> \<not> draws ev) out"
    using process_csv_folders_quiet [of fs folder_paths] assms(1) by simp
  then have "\<not> list_ex writes_file (out @ [Print ''No valid merged data found. Exiting.''])"
    and "\<not> list_ex draws (out @ [Print ''No valid merged data found. Exiting.''])"
    by (auto simp: list_ex_iff list_all_iff)
  with run show ?thesis by (simp add: merge_loop_None_iff)
qed

theorem plot_data_exits_without_output_witness:
  "plot_data cubic_ok disjoint_fs [''A'', ''B''] ''merged_output.xlsx'' ''merged_output_graph.png''
     = ([PrintFrame [converted ''run.100'' 100 50], PrintFrame [converted ''run.200'' 200 85],
         Print ''No valid merged data found. Exiting.''], None)"
proof -
  have m: "merge_loop None [(''A'', [converted ''run.100'' 100 50]),
                            (''B'', [converted ''run.200'' 200 85])] = None
         \<or> merge_loop None [(''A'', [converted ''run.100'' 100 50]),
                            (''B'', [converted ''run.200'' 200 85])] = Some []"
    by (simp add: as_merged_def pd_merge_def converted_def)
  from plot_data_exits_without_output [OF disjoint_tables m, of cubic_ok
      "''merged_output.xlsx''" "''merged_output_graph.png''"]
  show ?thesis by simp
qed





text \<open>
  C3. A folder holds \<open>run.100.csv\<close> and \<open>notes.csv\<close>, both with good tables. The scan
  keeps both; \<open>float\<close> then raises on \<open>notes\<close> at line 57, outside every handler: the
  run ends with that exception, nothing printed, nothing written, and the good file is
  lost with the bad one.
\<close>

theorem bad_filename_aborts_run:
  "fst (scan_folder [(''run.100.csv'', DataFrame [[Num 0, Num 1], [Num 40, Num 50]]),
                     (''notes.csv'', DataFrame [[Num 0, Num 1], [Num 6, Num 7]])])
     = [(''run.100'', Num 50), (''notes'', Num 7)]
   \<and> extract_numeric_part ''notes'' = Inl (ValueError ''notes'')
   \<and> plot_data ok bad_name_fs [''A''] output_file graph_file = ([], Some (ValueError ''notes''))"
  by (simp add: plot_data_def process_csv_folders_def Let_def bad_name_fs_def scan_defs
        folder_table_def parse_defs)

text \<open>
  C9. The four constants of lines 20 to 23 are bound and never read: the function
  without them returns the same tables and prints the same, and so the whole run has
  the same trace (the same spreadsheet, the same curves and points) and the same end.
\<close>

theorem sigma_constants_unused:
  "process_csv_folders fs folder_paths = process_csv_folders_without_sigma fs folder_paths
   \<and> plot_data ok fs folder_paths output_file graph_file
       = plot_data_without_sigma ok fs folder_paths output_file graph_file"
  by (simp add: process_csv_folders_def process_csv_folders_without_sigma_def
        plot_data_def plot_data_without_sigma_def Let_def)

theorem sigma_constants_unused_witness:
  "plot_data_without_sigma cubic_ok scenario_fs [''A'', ''B''] ''merged_output.xlsx''
        ''merged_output_graph.png''
     = ([PrintFrame [converted ''run.200'' 200 80, converted ''run.100'' 100 50],
         PrintFrame [converted ''run.100'' 100 55, converted ''run.200'' 200 85],
         ToExcel ''merged_output.xlsx''
           [(30.48, [(''run.100'', Num 50, 50 * 4.44822, 30.48 * (50 * 4.44822) / 1000),
                     (''run.100'', Num 55, 55 * 4.44822, 30.48 * (55 * 4.44822) / 1000)]),
            (60.96, [(''run.200'', Num 80, 80 * 4.44822, 60.96 * (80 * 4.44822) / 1000),
                     (''run.200'', Num 85, 85 * 4.44822, 60.96 * (85 * 4.44822) / 1000)])],
         Print (''Output file '' @ quote @ ''merged_output.xlsx'' @ quote
                @ '' generated successfully.'')],
        Some (InterpError ''A''))"
proof -
  have "plot_data_without_sigma cubic_ok scenario_fs [''A'', ''B''] ''merged_output.xlsx''
          ''merged_output_graph.png''
        = plot_data cubic_ok scenario_fs [''A'', ''B''] ''merged_output.xlsx''
          ''merged_output_graph.png''"
    using sigma_constants_unused [of scenario_fs "[''A'', ''B'']" cubic_ok
        "''merged_output.xlsx''" "''merged_output_graph.png''"]
    by simp
  then show ?thesis
    by (simp add: plot_data_def scenario_tables merge_export_plot_def Let_def as_merged_def
        pd_merge_def sort_values_def points_def cubic_ok_def converted_def)
qed

text \<open>
  C10. When the folders are processed without an exception and the merged table is not
  empty, the trace of the run is what the folders printed, in which nothing writes a
  file and nothing draws, then the spreadsheet with the sorted merged table, then the
  rest: the spreadsheet is written before the first fit. If the fit refuses the points
  of some folder, the run ends with that exception, the spreadsheet is in the trace and
  no image is saved.
\<close>

theorem export_precedes_plot:
  assumes "process_csv_folders fs folder_paths = (out, Inr all_dfs)"
      and "merge_loop None all_dfs = Some merged" and "merged \<noteq> []"
  shows "(\<exists>rest. fst (plot_data ok fs folder_paths output_file graph_file)
                  = out @ ToExcel output_file (sort_values merged) # rest)
       \<and> \<not> list_ex writes_file out \<and> \<not> list_ex draws out
       \<and> (list_ex (\<lambda>(folder, df). \<not> ok (points df)) all_dfs
            \<longrightarrow> (\<exists>folder. snd (plot_data ok fs folder_paths output_file graph_file)
                            = Some (InterpError folder))
                \<and> ToExcel output_file (sort_values merged)
                    \<in> set (fst (plot_data ok fs folder_paths output_file graph_file))
                \<and> \<not> list_ex saves_fig
                      (fst (plot_data ok fs folder_paths output_file graph_file)))"
proof -
  have run: "plot_data ok fs folder_paths output_file graph_file
               = merge_export_plot ok all_dfs out output_file graph_file"
    using assms(1) by (simp add: plot_data_def)
  have q: "list_all (\<lambda>ev. \<not> writes_file ev \<and> \<not> draws ev) out"
    using process_csv_folders_quiet [of fs folder_paths] assms(1) by simp
  then have quiet: "\<not> list_ex writes_file out" "\<not> list_ex draws out"
    by (auto simp: list_ex_iff list_all_iff)
  have nofig_out: "\<not> list_ex saves_fig out"
  proof -
    have "saves_fig ev \<Longrightarrow> writes_file ev" for ev by (cases ev) simp_all
    with quiet(1) show ?thesis by (auto simp: list_ex_iff)
  qed
  let ?two = "[ToExcel output_file (sort_values merged),
               Print (''Output file '' @ quote @ output_file @ quote
                      @ '' generated successfully.'')]"
  from merge_export_plot_exported [OF assms(2,3), of ok out output_file graph_file]
  obtain drawn where drawn: "list_all (\<lambda>ev. draws ev \<and> ascending ev) drawn"
    and alt: "list_ex (\<lambda>(folder, df). \<not> ok (points df)) all_dfs
          \<and> (\<exists>folder. merge_export_plot ok all_dfs out output_file graph_file
                = (out @ ?two @ drawn, Some (InterpError folder)))
        \<or> list_all (\<lambda>(folder, df). ok (points df)) all_dfs
          \<and> merge_export_plot ok all_dfs out output_file graph_file
                = (out @ ?two @ drawn
                       @ [SaveFig graph_file,
                          Print (''Graph saved as '' @ quote @ graph_file @ quote @ ''.''),
                          Show],
                   None)"
    by blast
  have nofig_drawn: "\<not> list_ex saves_fig drawn"
  proof -
    have "draws ev \<Longrightarrow> \<not> saves_fig ev" for ev by (cases ev) simp_all
    with drawn show ?thesis by (auto simp: list_ex_iff list_all_iff)
  qed
  have first: "\<exists>rest. fst (plot_data ok fs folder_paths output_file graph_file)
                  = out @ ToExcel output_file (sort_values merged) # rest"
    using alt by (auto simp: run)
  have fail: "(\<exists>folder. snd (plot_data ok fs folder_paths output_file graph_file)
                            = Some (InterpError folder))
                \<and> ToExcel output_file (sort_values merged)
                    \<in> set (fst (plot_data ok fs folder_paths output_file graph_file))
                \<and> \<not> list_ex saves_fig
                      (fst (plot_data ok fs folder_paths output_file graph_file))"
    if bad: "list_ex (\<lambda>(folder, df). \<not> ok (points df)) all_dfs"
  proof -
    from bad have "\<not> list_all (\<lambda>(folder, df). ok (points df)) all_dfs"
      by (auto simp: list_ex_iff list_all_iff)
    with alt obtain folder where
      "merge_export_plot ok all_dfs out output_file graph_file
         = (out @ ?two @ drawn, Some (InterpError folder))"
      by blast
    then show ?thesis
      using nofig_out nofig_drawn by (auto simp: run list_ex_iff)
  qed
  from first quiet fail show ?thesis by blast
qed

theorem export_precedes_plot_witness:
  "snd (plot_data cubic_ok scenario_fs [''A'', ''B''] ''out.xlsx'' ''graph.png'')
     = Some (InterpError ''A'')
   \<and> ToExcel ''out.xlsx''
        [(30.48, [(''run.100'', Num 50, 50 * 4.44822, 30.48 * (50 * 4.44822) / 1000),
                  (''run.100'', Num 55, 55 * 4.44822, 30.48 * (55 * 4.44822) / 1000)]),
         (60.96, [(''run.200'', Num 80, 80 * 4.44822, 60.96 * (80 * 4.44822) / 1000),
                  (''run.200'', Num 85, 85 * 4.44822, 60.96 * (85 * 4.44822) / 1000)])]
       \<in> set (fst (plot_data cubic_ok scenario_fs [''A'', ''B''] ''out.xlsx'' ''graph.png''))
   \<and> \<not> list_ex saves_fig
         (fst (plot_data cubic_ok scenario_fs [''A'', ''B''] ''out.xlsx'' ''graph.png''))"
proof -
  let ?all = "[(''A'', [converted ''run.200'' 200 80, converted ''run.100'' 100 50]),
               (''B'', [converted ''run.100'' 100 55, converted ''run.200'' 200 85])]"
  let ?merged = "[(60.96 :: real, [(''run.200'', Num 80, 80 * 4.44822 :: real,
                                    60.96 * (80 * 4.44822) / 1000 :: real),
                                   (''run.200'', Num 85, 85 * 4.44822, 60.96 * (85 * 4.44822) / 1000)]),
                  (30.48, [(''run.100'', Num 50, 50 * 4.44822, 30.48 * (50 * 4.44822) / 1000),
                           (''run.100'', Num 55, 55 * 4.44822, 30.48 * (55 * 4.44822) / 1000)])]"
  have m: "merge_loop None ?all = Some ?merged"
    by (simp add: as_merged_def pd_merge_def converted_def)
  have ne: "?merged \<noteq> []" by simp
  have bad: "list_ex (\<lambda>(folder, df). \<not> cubic_ok (points df)) ?all"
    by (simp add: cubic_ok_def points_def)
  have s: "sort_values ?merged
     = [(30.48, [(''run.100'', Num 50, 50 * 4.44822, 30.48 * (50 * 4.44822) / 1000),
                 (''run.100'', Num 55, 55 * 4.44822, 30.48 * (55 * 4.44822) / 1000)]),
        (60.96, [(''run.200'', Num 80, 80 * 4.44822, 60.96 * (80 * 4.44822) / 1000),
                 (''run.200'', Num 85, 85 * 4.44822, 60.96 * (85 * 4.44822) / 1000)])]"
    by (simp add: sort_values_def)
  from export_precedes_plot [OF scenario_tables m ne, of cubic_ok "''out.xlsx''" "''graph.png''"]
    bad
  have "(\<exists>folder. snd (plot_data cubic_ok scenario_fs [''A'', ''B''] ''out.xlsx'' ''graph.png'')
                            = Some (InterpError folder))
                \<and> ToExcel ''out.xlsx'' (sort_values ?merged)
                    \<in> set (fst (plot_data cubic_ok scenario_fs [''A'', ''B''] ''out.xlsx'' ''graph.png''))
                \<and> \<not> list_ex saves_fig
                      (fst (plot_data cubic_ok scenario_fs [''A'', ''B''] ''out.xlsx'' ''graph.png''))"
    by blast
  moreover have "snd (plot_data cubic_ok scenario_fs [''A'', ''B''] ''out.xlsx'' ''graph.png'')
     = Some (InterpError ''A'')"
    by (simp add: plot_data_def scenario_tables merge_export_plot_def Let_def as_merged_def
        pd_merge_def sort_values_def points_def cubic_ok_def converted_def)
  ultimately show ?thesis unfolding s by blast
qed


end
